theory Spec2Isabelle
  imports Complex_Main
begin

section \<open>Errors raised by the program\<close>

text \<open>
  Every exception the two modules raise (or let escape) is a value of this type.
  \<open>ValueError\<close> is raised by \<open>check_schema_version\<close>, \<open>IntegrityError\<close> by the
  store on a key violation, \<open>TypeError\<close> by subscripting the \<open>None\<close> that
  \<open>fetchone\<close> returns on an empty result, \<open>KeyError\<close> by subscripting a
  dictionary with a missing key, \<open>NoGooglePhotosFolderError\<close> by
  \<open>get_photos_folder_id\<close>, and \<open>ApiRequestError\<close> stands for whatever the
  remote listing itself raises.
\<close>

datatype error =
    ValueError string
  | IntegrityError
  | TypeError
  | KeyError string
  | NoGooglePhotosFolderError
  | ApiRequestError string

section \<open>LocalData: the rows and tables of the sqlite index\<close>

text \<open>
  Timestamps are compared by the store; they are modelled by their position on the
  time line (an integer), the string form produced by \<open>Utils.date_to_string\<close> being
  outside the sources.
\<close>

type_synonym date = int

text \<open>\<open>LocalData.SyncRow.cols_def\<close>: one field per column of \<open>SyncFiles\<close>.\<close>

record SyncRow =
  RemoteId :: string
  Url :: string
  Path :: string
  FileName :: string
  OrigFileName :: string
  DuplicateNo :: int
  MediaType :: int
  FileSize :: int
  Checksum :: string
  Description :: string
  ModifyDate :: date
  CreateDate :: date
  SyncDate :: date
  SymLink :: int

text \<open>
  A row of \<open>DriveFolders\<close>, with the four columns the queries of \<open>LocalData\<close> name.
  \<open>FolderPath\<close> is the column \<open>Path\<close>; it is \<open>None\<close> while the column is NULL.
  \<open>ParentId\<close> is \<open>None\<close> when the folder was stored with no parent (Python's
  \<open>None\<close>, bound as NULL).
\<close>

record FolderRow =
  FolderId :: string
  ParentId :: "string option"
  FolderName :: string
  FolderPath :: "string option"

text \<open>The singleton row \<open>Id IS 1\<close> of \<open>Globals\<close>; \<open>Version\<close> is the value \<open>float\<close> reads.\<close>

record GlobalsRow =
  Version :: rat
  LastIndexDrive :: "date option"
  LastIndexPicasa :: "date option"

text \<open>
  The content of one sqlite file. \<open>SyncFiles\<close> is kept in insertion order, the row
  at position \<open>i\<close> carrying the rowid \<open>i + 1\<close> (rows are inserted and never deleted).
  \<open>Globals\<close> is \<open>None\<close> when no row with \<open>Id\<close> 1 can be selected.
\<close>

record database =
  Globals :: "GlobalsRow option"
  SyncFiles :: "SyncRow list"
  DriveFolders :: "FolderRow list"

text \<open>\<open>cursor.fetchone()\<close>: the first row of the result, \<open>None\<close> when there is none.\<close>

fun fetchone :: "'a list \<Rightarrow> 'a option" where
  "fetchone [] = None"
| "fetchone (x # xs) = Some x"

text \<open>SQL \<open>MAX\<close> over a column: NULL (\<open>None\<close>) on an empty selection.\<close>

fun sql_max :: "int list \<Rightarrow> int option" where
  "sql_max [] = None"
| "sql_max (x # xs) = Some (fold max xs x)"

subsection \<open>Point lookups and insertion\<close>

definition get_file_by_id :: "database \<Rightarrow> string \<Rightarrow> SyncRow option" where
  "get_file_by_id db remote_id =
     fetchone (filter (\<lambda>r. RemoteId r = remote_id) (SyncFiles db))"

definition get_file_by_path :: "database \<Rightarrow> string \<Rightarrow> string \<Rightarrow> SyncRow option" where
  "get_file_by_path db folder name =
     fetchone (filter (\<lambda>r. Path r = folder \<and> FileName r = name) (SyncFiles db))"

text \<open>
  Modelled from the spec: the schema script \<open>etc/gphotos_create.sql\<close> is not among the
  sources, so the key constraint of \<open>SyncFiles\<close> is taken from the data model
  (``RemoteId unique across the catalog''; an insert of a RemoteId that is already
  present fails with a key error).
\<close>

definition violates_unique :: "database \<Rightarrow> SyncRow \<Rightarrow> bool" where
  "violates_unique db row = (RemoteId row \<in> set (map RemoteId (SyncFiles db)))"

text \<open>
  \<open>put_file\<close>: a plain \<open>INSERT INTO SyncFiles\<close>; returns \<open>lastrowid\<close> and the
  updated database.
\<close>

definition put_file :: "database \<Rightarrow> SyncRow \<Rightarrow> error + (nat \<times> database)" where
  "put_file db row =
     (if violates_unique db row then Inl IntegrityError
      else Inr (Suc (length (SyncFiles db)), db\<lparr>SyncFiles := SyncFiles db @ [row]\<rparr>))"

subsection \<open>Duplicate numbering\<close>

definition file_duplicate_no :: "database \<Rightarrow> string \<Rightarrow> string \<Rightarrow> string \<Rightarrow> int" where
  "file_duplicate_no db file_id path name =
     (case fetchone (map DuplicateNo (filter (\<lambda>r. RemoteId r = file_id) (SyncFiles db))) of
        Some dup \<Rightarrow> dup
      | None \<Rightarrow>
          (case sql_max (map DuplicateNo
                  (filter (\<lambda>r. Path r = path \<and> OrigFileName r = name) (SyncFiles db))) of
             Some m \<Rightarrow> m + 1
           | None \<Rightarrow> 0))"

text \<open>A run of \<open>put_file\<close> calls, stopping at the first one that raises.\<close>

fun put_files :: "database \<Rightarrow> SyncRow list \<Rightarrow> error + database" where
  "put_files db [] = Inr db"
| "put_files db (row # rows) =
     (case put_file db row of
        Inl e \<Rightarrow> Inl e
      | Inr (rowid, db') \<Rightarrow> put_files db' rows)"

text \<open>
  The caller's resolve-then-insert step for one remote item of the group
  \<open>(path, name)\<close>: ask \<open>file_duplicate_no\<close> for the number, store it in the row
  (whose other columns \<open>mk\<close> supplies) and insert the row. \<open>sync_group\<close> does so for
  a list of remote ids in order and collects the numbers assigned.
\<close>

definition resolve_and_put ::
  "(string \<Rightarrow> SyncRow) \<Rightarrow> string \<Rightarrow> string \<Rightarrow> database \<Rightarrow> string \<Rightarrow> error + (int \<times> database)" where
  "resolve_and_put mk path name db rid =
     (let dup = file_duplicate_no db rid path name;
          row = (mk rid)\<lparr>RemoteId := rid, Path := path, OrigFileName := name, DuplicateNo := dup\<rparr>
      in case put_file db row of
           Inl e \<Rightarrow> Inl e
         | Inr (rowid, db') \<Rightarrow> Inr (dup, db'))"

fun sync_group ::
  "(string \<Rightarrow> SyncRow) \<Rightarrow> string \<Rightarrow> string \<Rightarrow> database \<Rightarrow> string list \<Rightarrow> error + (int list \<times> database)" where
  "sync_group mk path name db [] = Inr ([], db)"
| "sync_group mk path name db (rid # rids) =
     (case resolve_and_put mk path name db rid of
        Inl e \<Rightarrow> Inl e
      | Inr (dup, db') \<Rightarrow>
          (case sync_group mk path name db' rids of
             Inl e \<Rightarrow> Inl e
           | Inr (dups, db'') \<Rightarrow> Inr (dup # dups, db'')))"

text \<open>
  The \<open>DuplicateNo\<close> column of the group \<open>(path, name)\<close>, and the number the second
  query of \<open>file_duplicate_no\<close> derives from such a column.
\<close>

definition group_nos :: "database \<Rightarrow> string \<Rightarrow> string \<Rightarrow> int list" where
  "group_nos db path name =
     map DuplicateNo (filter (\<lambda>r. Path r = path \<and> OrigFileName r = name) (SyncFiles db))"

definition next_no :: "int list \<Rightarrow> int" where
  "next_no xs = (case sql_max xs of Some m \<Rightarrow> m + 1 | None \<Rightarrow> 0)"

subsection \<open>Searching by pattern and date window\<close>

text \<open>
  The SQL \<open>LIKE\<close> operator of sqlite: \<open>%\<close> matches any run of characters, \<open>_\<close> any
  single one, and letters match without regard to ASCII case.
\<close>

definition ascii_lower :: "char \<Rightarrow> char" where
  "ascii_lower c =
     (let n = (of_char c :: nat) in if 65 \<le> n \<and> n \<le> 90 then char_of (n + 32) else c)"

fun sql_like :: "string \<Rightarrow> string \<Rightarrow> bool" where
  "sql_like [] [] = True"
| "sql_like [] (c # cs) = False"
| "sql_like (p # ps) [] = (p = CHR ''%'' \<and> sql_like ps [])"
| "sql_like (p # ps) (c # cs) =
     (if p = CHR ''%'' then sql_like ps (c # cs) \<or> sql_like (p # ps) cs
      else (p = CHR ''_'' \<or> ascii_lower p = ascii_lower c) \<and> sql_like ps cs)"

text \<open>The text form of an integer column, which is what \<open>LIKE\<close> compares.\<close>

definition digit :: "nat \<Rightarrow> char" where
  "digit d = ''0123456789'' ! d"

fun nat_text :: "nat \<Rightarrow> string" where
  "nat_text n = (if n < 10 then [digit n] else nat_text (n div 10) @ [digit (n mod 10)])"

declare nat_text.simps [simp del]

definition int_text :: "int \<Rightarrow> string" where
  "int_text i = (if i < 0 then CHR ''-'' # nat_text (nat (- i)) else nat_text (nat i))"

definition BLOCK_SIZE :: nat where
  "BLOCK_SIZE = 10000"

text \<open>
  The \<open>while True\<close> loop of \<open>get_files_by_search\<close>: \<open>fetchmany\<close> hands over the next
  block of at most \<open>n\<close> rows of the pending result, the loop yields them one by one and
  stops at the first empty block.
\<close>

function fetch_blocks :: "nat \<Rightarrow> 'a list \<Rightarrow> 'a list" where
  "fetch_blocks n pending =
     (let records = take n pending
      in if records = [] then [] else records @ fetch_blocks n (drop n pending))"
  by pat_completeness auto
termination
  by (relation "measure (\<lambda>(n, pending). length pending)") auto

declare fetch_blocks.simps [simp del]

text \<open>
  The conjuncts of the \<open>WHERE\<close> clause, in the order the query text is assembled:
  the two \<open>LIKE\<close> tests, then the date clauses that \<open>start_date\<close> and \<open>end_date\<close> add
  when they are given.
\<close>

definition where_clauses ::
  "string \<Rightarrow> string \<Rightarrow> date option \<Rightarrow> date option \<Rightarrow> (SyncRow \<Rightarrow> bool) list" where
  "where_clauses drive_id media_type start_date end_date =
     [\<lambda>r. sql_like drive_id (RemoteId r), \<lambda>r. sql_like media_type (int_text (MediaType r))]
     @ (case start_date of
          Some sd \<Rightarrow> [\<lambda>r. ModifyDate r \<ge> sd \<or> CreateDate r \<ge> sd]
        | None \<Rightarrow> [])
     @ (case end_date of
          Some ed \<Rightarrow> [\<lambda>r. ModifyDate r \<le> ed]
        | None \<Rightarrow> [])"

definition get_files_by_search ::
  "database \<Rightarrow> string \<Rightarrow> string \<Rightarrow> date option \<Rightarrow> date option \<Rightarrow> SyncRow list" where
  "get_files_by_search db drive_id media_type start_date end_date =
     fetch_blocks BLOCK_SIZE
       (filter (\<lambda>r. list_all (\<lambda>clause. clause r)
                       (where_clauses drive_id media_type start_date end_date))
          (SyncFiles db))"

subsection \<open>The folder table\<close>

text \<open>
  \<open>get_drive_folder_path\<close>: the \<open>Path\<close> column of the row selected by \<open>FolderId\<close>;
  \<open>None\<close> when there is no row, and also when the row's \<open>Path\<close> is NULL.
\<close>

definition get_drive_folder_path :: "database \<Rightarrow> string \<Rightarrow> string option" where
  "get_drive_folder_path db folder_id =
     (case fetchone (filter (\<lambda>f. FolderId f = folder_id) (DriveFolders db)) of
        Some result \<Rightarrow> FolderPath result
      | None \<Rightarrow> None)"

text \<open>
  \<open>put_drive_folder\<close>: \<open>INSERT OR REPLACE INTO DriveFolders(FolderId, ParentId,
  FolderName)\<close>. The third argument lands in \<open>FolderName\<close>; the statement names no
  \<open>Path\<close> column, so the new row's \<open>Path\<close> is NULL. A row with the same key is
  replaced (the spec's data model has \<open>FolderId\<close> as the unique key of this table).
\<close>

definition put_drive_folder ::
  "database \<Rightarrow> string \<Rightarrow> string option \<Rightarrow> string \<Rightarrow> database" where
  "put_drive_folder db drive_id parent_id date =
     db\<lparr>DriveFolders :=
          filter (\<lambda>f. FolderId f \<noteq> drive_id) (DriveFolders db)
          @ [\<lparr>FolderId = drive_id, ParentId = parent_id, FolderName = date, FolderPath = None\<rparr>]\<rparr>"

text \<open>
  The SQL comparison \<open>column = ?\<close>: it holds only between two values that are equal;
  with NULL on either side it is never true.
\<close>

fun sql_eq :: "'a option \<Rightarrow> 'a option \<Rightarrow> bool" where
  "sql_eq (Some a) (Some b) = (a = b)"
| "sql_eq None b = False"
| "sql_eq a None = False"

text \<open>
  \<open>update_drive_folder_path\<close>, run to the end of its iteration: the \<open>UPDATE\<close> sets
  \<open>Path\<close> on every row \<open>WHERE ParentId = ?\<close>, and the \<open>SELECT\<close> yields the
  \<open>(FolderId, FolderName)\<close> of those rows. Called with \<open>None\<close> as \<open>parent_id\<close> it
  matches no row.
\<close>

definition update_drive_folder_path ::
  "database \<Rightarrow> string \<Rightarrow> string option \<Rightarrow> (string \<times> string) list \<times> database" where
  "update_drive_folder_path db path parent_id =
     (let db' = db\<lparr>DriveFolders :=
                   map (\<lambda>f. if sql_eq (ParentId f) parent_id then f\<lparr>FolderPath := Some path\<rparr>
                            else f)
                     (DriveFolders db)\<rparr>
      in (map (\<lambda>f. (FolderId f, FolderName f))
            (filter (\<lambda>f. sql_eq (ParentId f) parent_id) (DriveFolders db')), db'))"

subsection \<open>Opening the index and the schema version check\<close>

text \<open>\<open>os.path.join\<close> of two components, as \<open>posixpath\<close> computes it.\<close>

definition os_path_join :: "string \<Rightarrow> string \<Rightarrow> string" where
  "os_path_join a b =
     (if b \<noteq> [] \<and> hd b = CHR ''/'' then b
      else if a = [] \<or> last a = CHR ''/'' then a @ b
      else a @ ''/'' @ b)"

definition DB_FILE_NAME :: string where
  "DB_FILE_NAME = ''gphotos.sqlite''"

text \<open>\<open>LocalData.VERSION = 2.3\<close>; versions are compared as numbers.\<close>

definition VERSION :: rat where
  "VERSION = 23 / 10"

text \<open>
  A \<open>LocalData\<close> object together with the part of the world it acts on:
  \<open>con\<close> is the content seen through the open connection (pending writes included),
  \<open>disk\<close> maps the path of each sqlite file to its committed content, \<open>stdout\<close>
  collects what is printed.
\<close>

record LocalData =
  file_name :: string
  con :: database
  disk :: "string \<rightharpoonup> database"
  stdout :: "string list"

text \<open>A connection to a path with no file yet sees a database without rows.\<close>

definition no_rows :: database where
  "no_rows = \<lparr>Globals = None, SyncFiles = [], DriveFolders = []\<rparr>"

definition connect :: "(string \<rightharpoonup> database) \<Rightarrow> string \<Rightarrow> database" where
  "connect dsk name = (case dsk name of Some d \<Rightarrow> d | None \<Rightarrow> no_rows)"

text \<open>
  Modelled from the spec: the script \<open>etc/gphotos_create.sql\<close> that \<open>clean_db\<close> runs
  is not among the sources. By the spec it ``initializes an empty schema'' and, at
  migration time, leaves ``an empty schema at SUPPORTED version'': every table empty,
  the \<open>Globals\<close> row carrying the supported version and no scan dates.
\<close>

definition gphotos_create_sql :: "database \<Rightarrow> database" where
  "gphotos_create_sql d =
     \<lparr>Globals = Some \<lparr>Version = VERSION, LastIndexDrive = None, LastIndexPicasa = None\<rparr>,
      SyncFiles = [], DriveFolders = []\<rparr>"

text \<open>
  \<open>clean_db\<close>: \<open>executescript\<close> runs the script through the connection; its
  statements are committed as they run, so the file holds the result as well.
\<close>

definition clean_db :: "LocalData \<Rightarrow> LocalData" where
  "clean_db s =
     (let d = gphotos_create_sql (con s)
      in s\<lparr>con := d, disk := (disk s)(file_name s \<mapsto> d)\<rparr>)"

definition commit :: "LocalData \<Rightarrow> LocalData" where
  "commit s = s\<lparr>disk := (disk s)(file_name s \<mapsto> con s)\<rparr>"

text \<open>\<open>os.rename\<close> on the sqlite files: the source path is freed, the target replaced.\<close>

definition rename_db :: "string \<Rightarrow> string \<Rightarrow> (string \<rightharpoonup> database) \<Rightarrow> (string \<rightharpoonup> database)" where
  "rename_db src dst dsk = (if src = dst then dsk else (dsk(dst := dsk src))(src := None))"

text \<open>
  \<open>check_schema_version\<close>. The result pairs what the call raises or returns with the
  state it leaves, so that the state after a raise can be stated too.
\<close>

definition check_schema_version :: "LocalData \<Rightarrow> (error + unit) \<times> LocalData" where
  "check_schema_version s =
     (case Globals (con s) of
        None \<Rightarrow> (Inl TypeError, s)
      | Some g \<Rightarrow>
          (let version = Version g in
           if version > VERSION then
             (Inl (ValueError ''Database version is newer than gphotos-sync''), s)
           else if version < VERSION then
             (let s1 = s\<lparr>stdout := stdout s @ [''Database schema out of date. Flushing index ...'']\<rparr>;
                  s2 = commit s1;
                  s3 = s2\<lparr>disk := rename_db (file_name s2) (file_name s2 @ ''.previous'') (disk s2)\<rparr>;
                  s4 = s3\<lparr>con := connect (disk s3) (file_name s3)\<rparr>
              in (Inr (), clean_db s4))
           else (Inr (), s)))"

text \<open>
  \<open>LocalData.__init__\<close> on a world whose sqlite files are \<open>dsk\<close>: the schema is
  rebuilt first when the file is missing or \<open>flush_index\<close> is set, then the version
  is checked. Creating a missing root folder leaves the sqlite files as they are and
  is not shown.
\<close>

definition LocalData_init ::
  "string \<Rightarrow> bool \<Rightarrow> (string \<rightharpoonup> database) \<Rightarrow> (error + unit) \<times> LocalData" where
  "LocalData_init root_folder flush_index dsk =
     (let name = os_path_join root_folder DB_FILE_NAME;
          clean = (dsk name = None \<or> flush_index);
          s = \<lparr>file_name = name, con = connect dsk name, disk = dsk, stdout = []\<rparr>
      in check_schema_version (if clean then clean_db s else s))"

section \<open>GooglePhotosSync: the remote folder, the local checks and the download\<close>

subsection \<open>The remote root folder\<close>





subsection \<open>Media items, the key-value index and the file system\<close>

text \<open>
  The class \<open>GooglePhotosMedia\<close> is not among the sources. Of a media object the
  functions below read \<open>id\<close>, \<open>description\<close>, \<open>checksum\<close> and the property
  \<open>filename\<close>, and they write \<open>duplicate_number\<close>. The property is recomputed on
  every access from the object's fixed data and its current \<open>duplicate_number\<close>;
  \<open>filename_at\<close> is that computation as a function of the number, left open.
\<close>

record media =
  media_id :: string
  description :: string
  checksum :: string
  duplicate_number :: int
  filename_at :: "int \<Rightarrow> string"

definition filename :: "media \<Rightarrow> string" where
  "filename m = filename_at m (duplicate_number m)"

text \<open>
  The \<open>pickledb\<close> store \<open>self.db\<close>: a dictionary from keys to dictionaries.
  \<open>dcreate\<close> binds a key to an empty dictionary; \<open>dadd\<close> adds a pair to the
  dictionary of a key and raises \<open>KeyError\<close> when the key is unbound.
\<close>

type_synonym pickledb = "string \<rightharpoonup> (string \<rightharpoonup> string)"

definition dcreate :: "pickledb \<Rightarrow> string \<Rightarrow> pickledb" where
  "dcreate idx name = idx(name \<mapsto> Map.empty)"

definition dadd :: "pickledb \<Rightarrow> string \<Rightarrow> string \<times> string \<Rightarrow> error + pickledb" where
  "dadd idx name pair =
     (case idx name of
        None \<Rightarrow> Inl (KeyError name)
      | Some d \<Rightarrow> Inr (idx(name \<mapsto> d(fst pair \<mapsto> snd pair))))"

fun dadd_all :: "pickledb \<Rightarrow> string \<Rightarrow> (string \<times> string) list \<Rightarrow> error + pickledb" where
  "dadd_all idx name [] = Inr idx"
| "dadd_all idx name (pair # pairs) =
     (case dadd idx name pair of
        Inl e \<Rightarrow> Inl e
      | Inr idx' \<Rightarrow> dadd_all idx' name pairs)"

text \<open>The local file system: the directories that exist and the content of each file.\<close>

record filesystem =
  dirs :: "string set"
  files :: "string \<rightharpoonup> string"

definition isfile :: "filesystem \<Rightarrow> string \<Rightarrow> bool" where
  "isfile fs p = (files fs p \<noteq> None)"

definition isdir :: "filesystem \<Rightarrow> string \<Rightarrow> bool" where
  "isdir fs p = (p \<in> dirs fs)"

definition makedirs :: "filesystem \<Rightarrow> string \<Rightarrow> filesystem" where
  "makedirs fs p = fs\<lparr>dirs := insert p (dirs fs)\<rparr>"

definition os_rename :: "string \<Rightarrow> string \<Rightarrow> filesystem \<Rightarrow> filesystem" where
  "os_rename src dst fs =
     (if src = dst then fs
      else fs\<lparr>files := ((files fs)(dst := files fs src))(src := None)\<rparr>)"

subsection \<open>The recursive existence checks\<close>

text \<open>
  \<open>is_indexed\<close> and \<open>has_local_version\<close> call themselves with no bound of their own,
  so each is a partial function: \<open>None\<close> stands for a call that never returns. A call
  that returns gives what it returns or raises, together with the media object, whose
  \<open>duplicate_number\<close> the call has changed in place.
\<close>

partial_function (option) is_indexed ::
  "pickledb \<Rightarrow> string \<Rightarrow> media \<Rightarrow> ((error + bool) \<times> media) option" where
  "is_indexed idx path m =
     (case idx (os_path_join path (filename m)) of
        None \<Rightarrow> Some (Inr False, m)
      | Some file_record \<Rightarrow>
          if file_record = Map.empty then Some (Inr False, m)
          else (case file_record ''id'' of
                  None \<Rightarrow> Some (Inl (KeyError ''id''), m)
                | Some i \<Rightarrow>
                    if i = media_id m then Some (Inr True, m)
                    else is_indexed idx path (m\<lparr>duplicate_number := duplicate_number m + 1\<rparr>)))"

partial_function (option) has_local_version ::
  "filesystem \<Rightarrow> pickledb \<Rightarrow> string \<Rightarrow> media \<Rightarrow> ((error + bool) \<times> media) option" where
  "has_local_version fs idx path m =
     (if isfile fs (os_path_join path (filename m)) then
        (case idx (media_id m) of
           None \<Rightarrow>
             has_local_version fs idx path (m\<lparr>duplicate_number := duplicate_number m + 1\<rparr>)
         | Some media_record \<Rightarrow>
             if media_record = Map.empty then
               has_local_version fs idx path (m\<lparr>duplicate_number := duplicate_number m + 1\<rparr>)
             else (case media_record ''filename'' of
                     None \<Rightarrow> Some (Inl (KeyError ''filename''), m)
                   | Some f \<Rightarrow>
                       if f = os_path_join path (filename m) then Some (Inr True, m)
                       else has_local_version fs idx path
                              (m\<lparr>duplicate_number := duplicate_number m + 1\<rparr>)))
      else Some (Inr False, m))"

subsection \<open>Downloading one item\<close>

text \<open>
  One transfer attempt, as the remote service decides it: the chunks that reach the
  open file, and then either completion or an exception with its message.
\<close>

datatype transfer = Completes "string list" | Fails "string list" string

text \<open>
  What \<open>download_media\<close> acts on: the file system, the key-value index and the
  lines printed. \<open>index_only\<close> is the one field of \<open>self.args\<close> the function reads.
\<close>

record sync_state =
  fsys :: filesystem
  index :: pickledb
  printed :: "string list"

record args =
  index_only :: bool

text \<open>
  The body of the \<open>try\<close>: \<open>io.open(temp_filename, 'bw')\<close> creates the file or
  empties it, the chunks are written in order, and leaving the \<open>with\<close> block closes
  the file whether or not an exception is on its way. The result is the exception's
  message, if any, and the file system.
\<close>

definition download_attempt :: "transfer \<Rightarrow> string \<Rightarrow> filesystem \<Rightarrow> string option \<times> filesystem" where
  "download_attempt t temp_filename fs =
     (case t of
        Completes chunks \<Rightarrow> (None, fs\<lparr>files := (files fs)(temp_filename \<mapsto> concat chunks)\<rparr>)
      | Fails chunks e \<Rightarrow> (Some e, fs\<lparr>files := (files fs)(temp_filename \<mapsto> concat chunks)\<rparr>))"

text \<open>
  The \<open>for retry in range(10)\<close> loop over the retries still to come: an exception
  is printed and the loop continues; a completed transfer is renamed to the target
  name and ends the loop; when the retries run out the loop simply ends.
\<close>

fun download_retries ::
  "(nat \<Rightarrow> transfer) \<Rightarrow> string \<Rightarrow> string \<Rightarrow> nat list \<Rightarrow> sync_state \<Rightarrow> sync_state" where
  "download_retries attempts temp_filename target_filename [] w = w"
| "download_retries attempts temp_filename target_filename (retry # rest) w =
     (case download_attempt (attempts retry) temp_filename (fsys w) of
        (Some e, fs') \<Rightarrow>
          download_retries attempts temp_filename target_filename rest
            (w\<lparr>fsys := fs', printed := printed w @ [''RETRYING due to '' @ e]\<rparr>)
      | (None, fs') \<Rightarrow> w\<lparr>fsys := os_rename temp_filename target_filename fs'\<rparr>)"

text \<open>
  \<open>download_media\<close>; \<open>service\<close> gives, for a file id, the outcome of each transfer
  attempt by its retry number. The progress handler only reports and is left out.
\<close>

definition download_media ::
  "args \<Rightarrow> (string \<Rightarrow> nat \<Rightarrow> transfer) \<Rightarrow> media \<Rightarrow> string \<Rightarrow> sync_state \<Rightarrow> error + (string \<times> sync_state)" where
  "download_media a service m path w =
     (let w1 = (if \<not> isdir (fsys w) path then w\<lparr>fsys := makedirs (fsys w) path\<rparr> else w);
          target_filename = os_path_join path (filename m);
          temp_filename = os_path_join path ''.temp-gphotos'';
          w2 = (if \<not> index_only a
                then download_retries (service (media_id m)) temp_filename target_filename [0..<10] w1
                else w1)
      in case dadd_all (dcreate (index w2) (media_id m)) (media_id m)
                [(''filename'', target_filename), (''description'', description m),
                 (''checksum'', checksum m)] of
           Inl e \<Rightarrow> Inl e
         | Inr idx1 \<Rightarrow>
             (case dadd_all (dcreate idx1 target_filename) target_filename
                     [(''id'', media_id m)] of
                Inl e \<Rightarrow> Inl e
              | Inr idx2 \<Rightarrow> Inr (target_filename, w2\<lparr>index := idx2\<rparr>)))"

section \<open>Auxiliary notions and sample data\<close>

text \<open>
  The duplicate numbers from \<open>d\<close> on whose file name, under the naming \<open>f\<close>, lies in
  the key set \<open>K\<close>: the names a recursive existence check can still stop at.
\<close>

definition probes :: "(int \<Rightarrow> string) \<Rightarrow> string set \<Rightarrow> int \<Rightarrow> int set" where
  "probes f K d = {n. d \<le> n \<and> f n \<in> K}"

text \<open>
  Sample data: rows and a database of the sqlite index, a naming scheme that puts the
  duplicate number in parentheses before the extension, a media item, a key-value
  index and a file system that know one file, a remote service on which every
  transfer fails, an empty sync state, a remote listing and sqlite files of a given
  stored version.
\<close>

definition sample_row :: "string \<Rightarrow> string \<Rightarrow> string \<Rightarrow> int \<Rightarrow> SyncRow" where
  "sample_row rid path name dup =
     \<lparr>RemoteId = rid, Url = ''http://x'', Path = path, FileName = name, OrigFileName = name,
      DuplicateNo = dup, MediaType = 0, FileSize = 10, Checksum = ''c'', Description = ''d'',
      ModifyDate = 20210101, CreateDate = 20210601, SyncDate = 20210701, SymLink = 0\<rparr>"

definition sample_db :: database where
  "sample_db =
     \<lparr>Globals = Some \<lparr>Version = 23 / 10, LastIndexDrive = None, LastIndexPicasa = None\<rparr>,
      SyncFiles = [sample_row ''a'' ''/p'' ''x.jpg'' 3, sample_row ''b'' ''/q'' ''y.jpg'' 0],
      DriveFolders = []\<rparr>"

definition sample_filename :: "string \<Rightarrow> string \<Rightarrow> int \<Rightarrow> string" where
  "sample_filename base ext n =
     (if n > 0 then base @ '' ('' @ int_text n @ '')'' @ ext else base @ ext)"

definition sample_media :: media where
  "sample_media =
     \<lparr>media_id = ''id1'', description = ''a photo'', checksum = ''abc'',
      duplicate_number = 0, filename_at = sample_filename ''img'' ''.jpg''\<rparr>"

definition sample_index :: pickledb where
  "sample_index = [''/photos/img.jpg'' \<mapsto> [''id'' \<mapsto> ''id0'']]"

definition sample_fs :: filesystem where
  "sample_fs = \<lparr>dirs = {''/photos''}, files = [''/photos/img.jpg'' \<mapsto> ''data'']\<rparr>"

definition failing_service :: "string \<Rightarrow> nat \<Rightarrow> transfer" where
  "failing_service file_id retry = Fails [''par'', ''tial''] ''HttpError 503''"

definition fresh_state :: sync_state where
  "fresh_state =
     \<lparr>fsys = \<lparr>dirs = {''/photos''}, files = Map.empty\<rparr>, index = Map.empty, printed = []\<rparr>"


definition sample_stored :: "rat \<Rightarrow> database" where
  "sample_stored v =
     sample_db\<lparr>Globals := Some \<lparr>Version = v, LastIndexDrive = None, LastIndexPicasa = None\<rparr>\<rparr>"

definition sample_store :: "rat \<Rightarrow> (string \<rightharpoonup> database)" where
  "sample_store v = [''/idx/gphotos.sqlite'' \<mapsto> sample_stored v]"

section \<open>Duplicate numbering: stability and gap-free assignment\<close>

lemma fetchone_append:
  "fetchone xs = Some x \<Longrightarrow> fetchone (xs @ ys) = Some x"
  by (cases xs) auto

lemma fetchone_map: "fetchone (map f xs) = map_option f (fetchone xs)"
  by (cases xs) auto

lemma fetchone_None: "fetchone xs = None \<longleftrightarrow> xs = []"
  by (cases xs) auto

lemma get_file_by_id_put_file:
  assumes "get_file_by_id db rid = Some r" and "put_file db row = Inr (k, db')"
  shows "get_file_by_id db' rid = Some r"
  using assms
  by (auto simp: get_file_by_id_def put_file_def fetchone_append split: if_splits)

lemma get_file_by_id_put_files:
  "get_file_by_id db rid = Some r \<Longrightarrow> put_files db rows = Inr db' \<Longrightarrow>
   get_file_by_id db' rid = Some r"
proof (induction rows arbitrary: db)
  case Nil
  then show ?case by simp
next
  case (Cons row rows)
  then show ?case
    by (auto split: sum.splits dest: get_file_by_id_put_file)
qed

lemma file_duplicate_no_existing:
  "get_file_by_id db rid = Some r \<Longrightarrow> file_duplicate_no db rid path name = DuplicateNo r"
  by (simp add: file_duplicate_no_def get_file_by_id_def fetchone_map)

text \<open>
  C3. Once a remote id has a row in \<open>SyncFiles\<close>, \<open>file_duplicate_no\<close> returns that
  row's stored \<open>DuplicateNo\<close> for any path and name arguments, in the database as it
  is and in every database reached from it by further successful \<open>put_file\<close> calls,
  whatever rows those calls add.
\<close>

theorem file_duplicate_no_stable:
  assumes "get_file_by_id db rid = Some r"
  shows "file_duplicate_no db rid path name = DuplicateNo r \<and>
         (\<forall>rows db' path' name'. put_files db rows = Inr db' \<longrightarrow>
            file_duplicate_no db' rid path' name' = DuplicateNo r)"
  using assms
  by (blast intro: file_duplicate_no_existing get_file_by_id_put_files)

theorem file_duplicate_no_stable_witness:
  "get_file_by_id sample_db ''a'' = Some (sample_row ''a'' ''/p'' ''x.jpg'' 3) \<and>
   file_duplicate_no sample_db ''a'' ''/other'' ''z.png'' = 3 \<and>
   (\<exists>db'. put_files sample_db
            [sample_row ''c'' ''/p'' ''x.jpg'' 4, sample_row ''d'' ''/p'' ''x.jpg'' 5] = Inr db' \<and>
          file_duplicate_no db' ''a'' ''/p'' ''x.jpg'' = 3)"
proof -
  have h: "get_file_by_id sample_db ''a'' = Some (sample_row ''a'' ''/p'' ''x.jpg'' 3)"
    by (simp add: get_file_by_id_def sample_db_def sample_row_def)
  obtain db' where p: "put_files sample_db
            [sample_row ''c'' ''/p'' ''x.jpg'' 4, sample_row ''d'' ''/p'' ''x.jpg'' 5] = Inr db'"
    by (simp add: put_file_def violates_unique_def sample_db_def sample_row_def)
  have s: "DuplicateNo (sample_row ''a'' ''/p'' ''x.jpg'' 3) = 3"
    by (simp add: sample_row_def)
  note t = file_duplicate_no_stable [OF h, of "''/other''" "''z.png''", unfolded s]
  from t have "file_duplicate_no sample_db ''a'' ''/other'' ''z.png'' = 3" by blast
  moreover from t p have "file_duplicate_no db' ''a'' ''/p'' ''x.jpg'' = 3" by blast
  ultimately show ?thesis using h p by blast
qed

lemma fold_max_Max: "fold max xs (x::int) = Max (set (x # xs))"
  by (rule Max.set_eq_fold [symmetric])

lemma sql_max_Max: "xs \<noteq> [] \<Longrightarrow> sql_max xs = Some (Max (set xs))"
  by (cases xs) (simp_all add: fold_max_Max del: set_simps)

lemma sql_max_snoc:
  "sql_max (xs @ [y]) = Some (case sql_max xs of None \<Rightarrow> y | Some m \<Rightarrow> max m y)"
  by (cases xs) (auto simp: max.commute)

lemma get_file_by_id_None:
  "get_file_by_id db rid = None \<longleftrightarrow> rid \<notin> RemoteId ` set (SyncFiles db)"
  by (auto simp: get_file_by_id_def fetchone_None filter_empty_conv)

lemma file_duplicate_no_fresh:
  "get_file_by_id db rid = None \<Longrightarrow>
   file_duplicate_no db rid path name = next_no (group_nos db path name)"
  by (simp add: file_duplicate_no_def get_file_by_id_def fetchone_map next_no_def group_nos_def)

lemma next_no_Max:
  "next_no xs = (if xs = [] then 0 else Max (set xs) + 1)"
  by (auto simp: next_no_def sql_max_Max)

lemma next_no_snoc: "next_no (xs @ [next_no xs]) = next_no xs + 1"
  by (simp add: next_no_def sql_max_snoc split: option.splits)

lemma resolve_and_put_fresh:
  assumes "get_file_by_id db rid = None"
  shows "\<exists>db'. resolve_and_put mk path name db rid = Inr (next_no (group_nos db path name), db')
           \<and> group_nos db' path name = group_nos db path name @ [next_no (group_nos db path name)]
           \<and> RemoteId ` set (SyncFiles db') = insert rid (RemoteId ` set (SyncFiles db))"
  using assms
  by (auto simp: resolve_and_put_def Let_def put_file_def violates_unique_def
      file_duplicate_no_fresh get_file_by_id_None group_nos_def)

lemma sync_group_fresh:
  assumes "distinct rids" and "\<forall>rid\<in>set rids. get_file_by_id db rid = None"
  shows "\<exists>db'. sync_group mk path name db rids =
           Inr (map (\<lambda>i. next_no (group_nos db path name) + int i) [0..<length rids], db')"
  using assms
proof (induction rids arbitrary: db)
  case Nil
  then show ?case by simp
next
  case (Cons rid rids)
  let ?n = "next_no (group_nos db path name)"
  from Cons.prems have fresh: "get_file_by_id db rid = None" by simp
  from resolve_and_put_fresh[OF fresh, of mk path name] obtain db1 where
    step: "resolve_and_put mk path name db rid = Inr (?n, db1)"
    and nos: "group_nos db1 path name = group_nos db path name @ [?n]"
    and ids: "RemoteId ` set (SyncFiles db1) = insert rid (RemoteId ` set (SyncFiles db))"
    by blast
  have "\<forall>r\<in>set rids. get_file_by_id db1 r = None"
    using Cons.prems ids by (auto simp: get_file_by_id_None)
  moreover have "distinct rids" using Cons.prems by simp
  ultimately obtain db2 where
    rest: "sync_group mk path name db1 rids =
             Inr (map (\<lambda>i. next_no (group_nos db1 path name) + int i) [0..<length rids], db2)"
    using Cons.IH by blast
  have nn: "next_no (group_nos db1 path name) = ?n + 1"
    by (simp add: nos next_no_snoc)
  have "map (\<lambda>i. ?n + int i) [0..<length (rid # rids)]
        = ?n # map (\<lambda>i. ?n + 1 + int i) [0..<length rids]"
    by (simp add: upt_conv_Cons map_Suc_upt[symmetric] del: upt_Suc)
  with step rest nn show ?case by simp
qed

text \<open>
  C4. For a remote id without a row, \<open>file_duplicate_no\<close> returns 0 when the group
  \<open>(path, name)\<close> is empty and the group's largest \<open>DuplicateNo\<close> plus one otherwise.
  Hence, from a database whose group \<open>(path, name)\<close> is empty, resolving and inserting
  rows for pairwise-distinct remote ids that have no row yet, in order, succeeds and
  assigns 0, 1, ..., N-1.
\<close>

theorem gap_free_first_assignment:
  assumes "group_nos db path name = []"
      and "distinct rids"
      and "\<forall>rid\<in>set rids. get_file_by_id db rid = None"
  shows "(\<exists>db'. sync_group mk path name db rids = Inr (map int [0..<length rids], db')) \<and>
         (\<forall>d rid p n. get_file_by_id d rid = None \<longrightarrow>
            file_duplicate_no d rid p n =
              (if group_nos d p n = [] then 0 else Max (set (group_nos d p n)) + 1))"
proof -
  have "next_no (group_nos db path name) = 0"
    using assms(1) by (simp add: next_no_def)
  with sync_group_fresh[OF assms(2,3), of mk path name]
  have "\<exists>db'. sync_group mk path name db rids = Inr (map int [0..<length rids], db')"
    by simp
  moreover have "\<forall>d rid p n. get_file_by_id d rid = None \<longrightarrow>
            file_duplicate_no d rid p n =
              (if group_nos d p n = [] then 0 else Max (set (group_nos d p n)) + 1)"
    by (simp add: file_duplicate_no_fresh next_no_Max)
  ultimately show ?thesis by blast
qed

theorem gap_free_first_assignment_witness:
  "group_nos sample_db ''/p'' ''new.jpg'' = [] \<and>
   distinct [''r1'', ''r2'', ''r3''] \<and>
   get_file_by_id sample_db ''r1'' = None \<and>
   get_file_by_id sample_db ''r2'' = None \<and>
   get_file_by_id sample_db ''r3'' = None \<and>
   (\<exists>db'. sync_group (\<lambda>rid. sample_row rid ''/p'' ''new.jpg'' 0) ''/p'' ''new.jpg'' sample_db
            [''r1'', ''r2'', ''r3''] = Inr ([0, 1, 2], db')) \<and>
   file_duplicate_no sample_db ''r1'' ''/p'' ''x.jpg'' = 4"
proof -
  have a: "group_nos sample_db ''/p'' ''new.jpg'' = []"
    by (simp add: group_nos_def sample_db_def sample_row_def)
  have b: "distinct [''r1'', ''r2'', ''r3'']" by simp
  have c: "\<forall>rid\<in>set [''r1'', ''r2'', ''r3'']. get_file_by_id sample_db rid = None"
    by (simp add: get_file_by_id_def sample_db_def sample_row_def)
  have d: "group_nos sample_db ''/p'' ''x.jpg'' = [3]"
    by (simp add: group_nos_def sample_db_def sample_row_def)
  have e: "map int [0..<length [''r1'', ''r2'', ''r3'']] = [0, 1, 2]"
    by (simp add: upt_rec)
  from gap_free_first_assignment [OF a b c, of "\<lambda>rid. sample_row rid ''/p'' ''new.jpg'' 0"]
  show ?thesis using a b c d e by auto
qed

section \<open>Searching by date window\<close>

lemma fetch_blocks_all: "0 < n \<Longrightarrow> fetch_blocks n pending = pending"
proof (induction n pending rule: fetch_blocks.induct)
  case (1 n pending)
  show ?case
  proof (cases "take n pending = []")
    case True
    with \<open>0 < n\<close> have "pending = []" by (cases pending) auto
    then show ?thesis by (simp add: fetch_blocks.simps)
  next
    case False
    with 1 have "fetch_blocks n (drop n pending) = drop n pending" by simp
    with False show ?thesis
      by (subst fetch_blocks.simps) (simp add: Let_def)
  qed
qed

lemma sql_like_percent: "sql_like ''%'' s"
  by (induction s) auto

text \<open>
  C7. \<open>get_files_by_search\<close> returns exactly the rows of \<open>SyncFiles\<close>, in table
  order, that match both patterns and, when a start date is given, have \<open>ModifyDate\<close>
  or \<open>CreateDate\<close> on or after it and, when an end date is given, have \<open>ModifyDate\<close>
  on or before it; \<open>CreateDate\<close> plays no part in the end-date test. In particular a
  matching row whose \<open>ModifyDate\<close> is before the start date and whose \<open>CreateDate\<close>
  is on or after it is returned.
\<close>

theorem date_window_inclusive:
  "get_files_by_search db drive_id media_type start_date end_date =
     filter (\<lambda>r. sql_like drive_id (RemoteId r) \<and>
                 sql_like media_type (int_text (MediaType r)) \<and>
                 (case start_date of
                    None \<Rightarrow> True
                  | Some sd \<Rightarrow> sd \<le> ModifyDate r \<or> sd \<le> CreateDate r) \<and>
                 (case end_date of
                    None \<Rightarrow> True
                  | Some ed \<Rightarrow> ModifyDate r \<le> ed))
       (SyncFiles db) \<and>
   (r \<in> set (SyncFiles db) \<and> sql_like drive_id (RemoteId r) \<and>
    sql_like media_type (int_text (MediaType r)) \<and>
    ModifyDate r < sd \<and> sd \<le> CreateDate r \<longrightarrow>
      r \<in> set (get_files_by_search db drive_id media_type (Some sd) None))"
  by (auto simp: get_files_by_search_def where_clauses_def fetch_blocks_all BLOCK_SIZE_def
      split: option.splits intro!: filter_cong)

theorem date_window_inclusive_witness:
  "get_files_by_search sample_db ''b'' ''%'' (Some 20210501) None
     = [sample_row ''b'' ''/q'' ''y.jpg'' 0] \<and>
   get_files_by_search sample_db ''%'' ''%'' None (Some 20201231) = []"
  using date_window_inclusive [of sample_db "''b''" "''%''" "Some 20210501" None]
        date_window_inclusive [of sample_db "''%''" "''%''" None "Some 20201231"]
  by (simp add: sample_db_def sample_row_def int_text_def nat_text.simps digit_def ascii_lower_def)

section \<open>The folder table: what a stored folder's path is\<close>

text \<open>
  C8, as stated, fails: after \<open>put_drive_folder\<close> with \<open>/A\<close> as its third argument
  on a database without rows, \<open>get_drive_folder_path\<close> does not return \<open>/A\<close>.
\<close>

theorem put_drive_folder_path_counterexample:
  "get_drive_folder_path (put_drive_folder no_rows ''f1'' (Some ''root'') ''/A'') ''f1''
     \<noteq> Some ''/A''"
  by (simp add: get_drive_folder_path_def put_drive_folder_def no_rows_def)

lemma sql_eq_None: "sql_eq a None = False"
  by (cases a) simp_all

lemma update_drive_folder_path_null:
  "update_drive_folder_path db path None = ([], db)"
  by (simp add: update_drive_folder_path_def sql_eq_None)

text \<open>
  C8, amended. On any database, after \<open>put_drive_folder\<close> the row selected by the
  folder id holds the parent id given, the third argument as the folder's name and no
  path, so \<open>get_drive_folder_path\<close> returns no path right after it. When the parent id
  is not \<open>None\<close>, a following \<open>update_drive_folder_path\<close> for that parent yields the
  folder's id with the stored name among the children, and afterwards
  \<open>get_drive_folder_path\<close> returns the path that the update was given. Called with
  \<open>None\<close> as the parent id, \<open>update_drive_folder_path\<close> matches no row: it yields
  nothing and changes nothing, so a folder stored without a parent keeps no path.
\<close>

theorem folder_path_set_by_update:
  "fetchone (filter (\<lambda>f. FolderId f = folder_id)
      (DriveFolders (put_drive_folder db folder_id parent_id name)))
     = Some \<lparr>FolderId = folder_id, ParentId = parent_id, FolderName = name, FolderPath = None\<rparr> \<and>
   get_drive_folder_path (put_drive_folder db folder_id parent_id name) folder_id = None \<and>
   (folder_id, name) \<in> set (fst (update_drive_folder_path
      (put_drive_folder db folder_id (Some parent) name) path (Some parent))) \<and>
   get_drive_folder_path
     (snd (update_drive_folder_path (put_drive_folder db folder_id (Some parent) name)
        path (Some parent)))
     folder_id = Some path \<and>
   update_drive_folder_path (put_drive_folder db folder_id None name) path None
     = ([], put_drive_folder db folder_id None name) \<and>
   get_drive_folder_path
     (snd (update_drive_folder_path (put_drive_folder db folder_id None name) path None))
     folder_id = None"
  by (simp add: get_drive_folder_path_def put_drive_folder_def update_drive_folder_path_null)
    (simp add: update_drive_folder_path_def Let_def filter_map comp_def)

section \<open>The remote root folder\<close>



section \<open>The schema version gate\<close>

text \<open>
  C5. Opening an index whose file exists and whose stored version is greater than the
  supported one, without the flush flag, raises the \<open>ValueError\<close> of a newer store
  and leaves every sqlite file as it was: nothing is renamed, rebuilt or written.
  The same holds for \<open>check_schema_version\<close> in any state whose connection sees such
  a version.
\<close>

theorem newer_store_rejected:
  assumes "dsk (os_path_join root_folder DB_FILE_NAME) = Some d"
      and "Globals d = Some g"
      and "VERSION < Version g"
  shows "LocalData_init root_folder False dsk =
           (Inl (ValueError ''Database version is newer than gphotos-sync''),
            \<lparr>file_name = os_path_join root_folder DB_FILE_NAME, con = d, disk = dsk, stdout = []\<rparr>) \<and>
         (\<forall>s. con s = d \<longrightarrow>
            check_schema_version s =
              (Inl (ValueError ''Database version is newer than gphotos-sync''), s))"
  using assms
  by (simp add: LocalData_init_def check_schema_version_def connect_def Let_def)

lemma sample_store_lookup:
  "sample_store v (os_path_join ''/idx'' DB_FILE_NAME) = Some (sample_stored v)"
  by (simp add: sample_store_def os_path_join_def DB_FILE_NAME_def)

lemma sample_stored_version:
  "Globals (sample_stored v) = Some \<lparr>Version = v, LastIndexDrive = None, LastIndexPicasa = None\<rparr>"
  by (simp add: sample_stored_def)

theorem newer_store_rejected_witness:
  "sample_store (24 / 10) (os_path_join ''/idx'' DB_FILE_NAME) = Some (sample_stored (24 / 10)) \<and>
   VERSION < 24 / 10 \<and>
   LocalData_init ''/idx'' False (sample_store (24 / 10)) =
     (Inl (ValueError ''Database version is newer than gphotos-sync''),
      \<lparr>file_name = os_path_join ''/idx'' DB_FILE_NAME, con = sample_stored (24 / 10),
       disk = sample_store (24 / 10), stdout = []\<rparr>)"
proof -
  have c: "VERSION < Version \<lparr>Version = 24 / 10, LastIndexDrive = None, LastIndexPicasa = None\<rparr>"
    by (simp add: VERSION_def)
  from newer_store_rejected [where dsk = "sample_store (24 / 10)" and root_folder = "''/idx''",
      OF sample_store_lookup sample_stored_version c] c
  show ?thesis by (simp add: sample_store_lookup)
qed

text \<open>
  C6. Opening an index whose file exists and whose stored version is less than the
  supported one, without the flush flag, succeeds; afterwards the prior content is
  kept under the original path with \<open>.previous\<close> appended, the original path holds a
  store with no rows in \<open>SyncFiles\<close> or \<open>DriveFolders\<close> and the supported version,
  which is also what the connection sees, and no other file has changed.
  \<open>check_schema_version\<close> does the same in any state whose connection sees such a
  version, setting aside the content as the connection saw it.
\<close>

theorem older_store_set_aside:
  assumes "dsk (os_path_join root_folder DB_FILE_NAME) = Some d"
      and "Globals d = Some g"
      and "Version g < VERSION"
  shows "(\<exists>s'. LocalData_init root_folder False dsk = (Inr (), s') \<and>
           disk s' (os_path_join root_folder DB_FILE_NAME @ ''.previous'') = Some d \<and>
           disk s' (os_path_join root_folder DB_FILE_NAME) = Some (con s') \<and>
           file_name s' = os_path_join root_folder DB_FILE_NAME \<and>
           SyncFiles (con s') = [] \<and> DriveFolders (con s') = [] \<and>
           map_option Version (Globals (con s')) = Some VERSION \<and>
           (\<forall>p. p \<noteq> os_path_join root_folder DB_FILE_NAME \<and>
                p \<noteq> os_path_join root_folder DB_FILE_NAME @ ''.previous'' \<longrightarrow>
                disk s' p = dsk p)) \<and>
         (\<forall>s. con s = d \<longrightarrow>
            (\<exists>s'. check_schema_version s = (Inr (), s') \<and>
              disk s' (file_name s @ ''.previous'') = Some d \<and>
              disk s' (file_name s) = Some (con s') \<and>
              SyncFiles (con s') = [] \<and>
              map_option Version (Globals (con s')) = Some VERSION))"
  using assms
  by (simp add: LocalData_init_def check_schema_version_def connect_def Let_def
      clean_db_def commit_def rename_db_def gphotos_create_sql_def)

theorem older_store_set_aside_witness:
  "sample_store (22 / 10) (os_path_join ''/idx'' DB_FILE_NAME) = Some (sample_stored (22 / 10)) \<and>
   22 / 10 < VERSION \<and>
   SyncFiles (sample_stored (22 / 10)) \<noteq> [] \<and>
   (\<exists>s'. LocalData_init ''/idx'' False (sample_store (22 / 10)) = (Inr (), s') \<and>
      disk s' ''/idx/gphotos.sqlite.previous'' = Some (sample_stored (22 / 10)) \<and>
      disk s' ''/idx/gphotos.sqlite'' = Some (con s') \<and>
      SyncFiles (con s') = [] \<and>
      map_option Version (Globals (con s')) = Some VERSION)"
proof -
  have c: "Version \<lparr>Version = 22 / 10, LastIndexDrive = None, LastIndexPicasa = None\<rparr> < VERSION"
    by (simp add: VERSION_def)
  have n: "os_path_join ''/idx'' DB_FILE_NAME = ''/idx/gphotos.sqlite''"
    by (simp add: os_path_join_def DB_FILE_NAME_def)
  have r: "SyncFiles (sample_stored (22 / 10)) \<noteq> []"
    by (simp add: sample_stored_def sample_db_def)
  note t = older_store_set_aside [where dsk = "sample_store (22 / 10)" and root_folder = "''/idx''",
      OF sample_store_lookup sample_stored_version c, THEN conjunct1, unfolded n]
  from t show ?thesis using c r
    by (elim exE conjE) (simp add: sample_store_lookup)
qed

section \<open>The recursive existence checks return\<close>

lemma finite_probes:
  assumes "finite K" and "inj_on f {d..}"
  shows "finite (probes f K d)"
proof -
  have "f ` probes f K d \<subseteq> K" by (auto simp: probes_def)
  with assms(1) have "finite (f ` probes f K d)" by (rule rev_finite_subset)
  moreover have "inj_on f (probes f K d)"
    using assms(2) by (rule inj_on_subset) (auto simp: probes_def)
  ultimately show ?thesis by (rule finite_imageD)
qed

lemma probes_step:
  assumes "finite K" and "inj_on f {d..}" and "f d \<in> K"
  shows "card (probes f K (d + 1)) < card (probes f K d)"
proof (rule psubset_card_mono)
  show "finite (probes f K d)" using assms(1,2) by (rule finite_probes)
  have "d \<in> probes f K d" using assms(3) by (simp add: probes_def)
  moreover have "d \<notin> probes f K (d + 1)" by (simp add: probes_def)
  moreover have "probes f K (d + 1) \<subseteq> probes f K d" by (auto simp: probes_def)
  ultimately show "probes f K (d + 1) \<subset> probes f K d" by blast
qed

lemma inj_on_step: "inj_on f {d..} \<Longrightarrow> inj_on f {d + 1..}" for d :: int
  by (rule inj_on_subset) auto

lemma is_indexed_returns:
  assumes "finite (dom idx)"
      and "inj_on (\<lambda>n. os_path_join path (filename_at m n)) {duplicate_number m..}"
  shows "\<exists>r. is_indexed idx path m = Some r"
  using assms(2)
proof (induction "card (probes (\<lambda>n. os_path_join path (filename_at m n)) (dom idx)
                          (duplicate_number m))"
       arbitrary: m rule: less_induct)
  case less
  let ?f = "\<lambda>n. os_path_join path (filename_at m n)"
  let ?d = "duplicate_number m"
  let ?m' = "m\<lparr>duplicate_number := ?d + 1\<rparr>"
  have next_returns: "\<exists>r. is_indexed idx path ?m' = Some r" if "?f ?d \<in> dom idx"
  proof -
    have "card (probes ?f (dom idx) (?d + 1)) < card (probes ?f (dom idx) ?d)"
      using assms(1) less.prems that by (rule probes_step)
    moreover have "inj_on ?f {?d + 1..}" using less.prems by (rule inj_on_step)
    ultimately show ?thesis using less.hyps [of ?m'] by simp
  qed
  show ?case
  proof (cases "idx (?f ?d)")
    case None
    then show ?thesis by (subst is_indexed.simps) (simp add: filename_def)
  next
    case (Some file_record)
    then have "?f ?d \<in> dom idx" by auto
    from next_returns [OF this] obtain r where "is_indexed idx path ?m' = Some r" ..
    with Some show ?thesis
      by (subst is_indexed.simps) (simp add: filename_def split: option.splits)
  qed
qed

lemma has_local_version_returns:
  assumes "finite (dom (files fs))"
      and "inj_on (\<lambda>n. os_path_join path (filename_at m n)) {duplicate_number m..}"
  shows "\<exists>r. has_local_version fs idx path m = Some r"
  using assms(2)
proof (induction "card (probes (\<lambda>n. os_path_join path (filename_at m n)) (dom (files fs))
                          (duplicate_number m))"
       arbitrary: m rule: less_induct)
  case less
  let ?f = "\<lambda>n. os_path_join path (filename_at m n)"
  let ?d = "duplicate_number m"
  let ?m' = "m\<lparr>duplicate_number := ?d + 1\<rparr>"
  show ?case
  proof (cases "isfile fs (?f ?d)")
    case False
    then show ?thesis by (subst has_local_version.simps) (simp add: filename_def)
  next
    case True
    then have mem: "?f ?d \<in> dom (files fs)" by (auto simp: isfile_def)
    have "card (probes ?f (dom (files fs)) (?d + 1)) < card (probes ?f (dom (files fs)) ?d)"
      using assms(1) less.prems mem by (rule probes_step)
    moreover have "inj_on ?f {?d + 1..}" using less.prems by (rule inj_on_step)
    ultimately obtain r where "has_local_version fs idx path ?m' = Some r"
      using less.hyps [of ?m'] by auto
    with True show ?thesis
      by (subst has_local_version.simps) (simp add: filename_def split: option.splits)
  qed
qed

text \<open>
  C10. On a finite index and a finite file system, \<open>is_indexed\<close> and
  \<open>has_local_version\<close> return (a value or an exception), provided the names the
  media object takes from its current duplicate number on are pairwise distinct:
  every recursive call moves to the next number, hence to a name not examined before,
  and only finitely many names are keys of the index or files on disk.
\<close>

theorem existence_checks_terminate:
  assumes "finite (dom idx)" and "finite (dom (files fs))"
      and "inj_on (\<lambda>n. os_path_join path (filename_at m n)) {duplicate_number m..}"
  shows "(\<exists>r. is_indexed idx path m = Some r) \<and>
         (\<exists>r. has_local_version fs idx path m = Some r)"
  using is_indexed_returns [OF assms(1,3)] has_local_version_returns [OF assms(2,3)]
  by blast


lemma digit_inj: "a < 10 \<Longrightarrow> b < 10 \<Longrightarrow> digit a = digit b \<Longrightarrow> a = b"
  by (simp add: digit_def nth_eq_iff_index_eq)

lemma nat_text_nonempty: "nat_text n \<noteq> []"
  by (subst nat_text.simps) simp

lemma nat_text_inj: "nat_text a = nat_text b \<Longrightarrow> a = b"
proof (induction a arbitrary: b rule: nat_text.induct)
  case (1 n)
  show ?case
  proof (cases "n < 10")
    case True
    then have n: "nat_text n = [digit n]" by (subst nat_text.simps) simp
    show ?thesis
    proof (cases "b < 10")
      case True
      then have "nat_text b = [digit b]" by (subst nat_text.simps) simp
      with n "1.prems" \<open>n < 10\<close> True show ?thesis by (simp add: digit_inj)
    next
      case False
      then have "nat_text b = nat_text (b div 10) @ [digit (b mod 10)]"
        by (subst nat_text.simps) simp
      with n "1.prems" show ?thesis by (simp add: nat_text_nonempty nat_text_nonempty [THEN not_sym])
    qed
  next
    case False
    then have n: "nat_text n = nat_text (n div 10) @ [digit (n mod 10)]"
      by (subst nat_text.simps) simp
    show ?thesis
    proof (cases "b < 10")
      case True
      then have "nat_text b = [digit b]" by (subst nat_text.simps) simp
      with n "1.prems" show ?thesis by (simp add: nat_text_nonempty nat_text_nonempty [THEN not_sym])
    next
      case b: False
      then have "nat_text b = nat_text (b div 10) @ [digit (b mod 10)]"
        by (subst nat_text.simps) simp
      with n "1.prems" have eq: "nat_text (n div 10) = nat_text (b div 10)"
        and dg: "digit (n mod 10) = digit (b mod 10)" by simp_all
      from "1.IH" [OF False eq] have "n div 10 = b div 10" .
      moreover from dg have "n mod 10 = b mod 10" by (simp add: digit_inj)
      ultimately show ?thesis by (metis div_mult_mod_eq)
    qed
  qed
qed

lemma sample_filename_inj:
  "inj_on (\<lambda>n. os_path_join ''/photos'' (sample_filename ''img'' ''.jpg'' n)) {0..}"
proof (rule inj_onI)
  fix x y :: int
  assume "x \<in> {0..}" and "y \<in> {0..}"
    and eq: "os_path_join ''/photos'' (sample_filename ''img'' ''.jpg'' x)
             = os_path_join ''/photos'' (sample_filename ''img'' ''.jpg'' y)"
  then have x: "0 \<le> x" and y: "0 \<le> y" by simp_all
  from eq have "sample_filename ''img'' ''.jpg'' x = sample_filename ''img'' ''.jpg'' y"
    by (simp add: os_path_join_def sample_filename_def split: if_splits)
  then show "x = y"
    using x y nat_text_inj [of "nat x" "nat y"]
    by (auto simp: sample_filename_def int_text_def split: if_splits)
qed


lemma text_1: "int_text 1 = ''1''"
  by (simp add: int_text_def nat_text.simps digit_def)

theorem existence_checks_terminate_witness:
  "finite (dom sample_index) \<and> finite (dom (files sample_fs)) \<and>
   inj_on (\<lambda>n. os_path_join ''/photos'' (filename_at sample_media n))
     {duplicate_number sample_media..} \<and>
   is_indexed sample_index ''/photos'' sample_media
     = Some (Inr False, sample_media\<lparr>duplicate_number := 1\<rparr>) \<and>
   has_local_version sample_fs sample_index ''/photos'' sample_media
     = Some (Inr False, sample_media\<lparr>duplicate_number := 1\<rparr>)"
proof -
  have a: "finite (dom sample_index)" by (simp add: sample_index_def)
  have b: "finite (dom (files sample_fs))" by (simp add: sample_fs_def)
  have c: "inj_on (\<lambda>n. os_path_join ''/photos'' (filename_at sample_media n))
             {duplicate_number sample_media..}"
    using sample_filename_inj by (simp add: sample_media_def)
  have n0: "os_path_join ''/photos'' (filename sample_media) = ''/photos/img.jpg''"
    by (simp add: os_path_join_def filename_def sample_media_def sample_filename_def)
  have n1: "os_path_join ''/photos'' (filename (sample_media\<lparr>duplicate_number := 1\<rparr>))
              = ''/photos/img (1).jpg''"
    by (simp add: os_path_join_def filename_def sample_media_def sample_filename_def text_1)
  have i0: "sample_index ''/photos/img.jpg'' = Some [''id'' \<mapsto> ''id0'']"
    and i1: "sample_index ''/photos/img (1).jpg'' = None"
    and i2: "sample_index ''id1'' = None"
    by (simp_all add: sample_index_def)
  have f0: "isfile sample_fs ''/photos/img.jpg''"
    and f1: "\<not> isfile sample_fs ''/photos/img (1).jpg''"
    by (simp_all add: isfile_def sample_fs_def)
  have mid: "media_id sample_media = ''id1''" and dn: "duplicate_number sample_media = 0"
    by (simp_all add: sample_media_def)
  have d: "is_indexed sample_index ''/photos'' (sample_media\<lparr>duplicate_number := 1\<rparr>)
             = Some (Inr False, sample_media\<lparr>duplicate_number := 1\<rparr>)"
    by (subst is_indexed.simps) (simp add: n1 i1)
  have e: "is_indexed sample_index ''/photos'' sample_media
             = Some (Inr False, sample_media\<lparr>duplicate_number := 1\<rparr>)"
    by (subst is_indexed.simps) (simp add: n0 i0 mid dn d)
  have g: "has_local_version sample_fs sample_index ''/photos''
             (sample_media\<lparr>duplicate_number := 1\<rparr>)
             = Some (Inr False, sample_media\<lparr>duplicate_number := 1\<rparr>)"
    by (subst has_local_version.simps) (simp add: n1 f1)
  have h: "has_local_version sample_fs sample_index ''/photos'' sample_media
             = Some (Inr False, sample_media\<lparr>duplicate_number := 1\<rparr>)"
    by (subst has_local_version.simps) (simp add: n0 f0 i2 mid dn g)
  from existence_checks_terminate [OF a b c] a b c e h
  show ?thesis by simp
qed


section \<open>Downloads whose every transfer attempt fails\<close>

lemma download_retries_all_fail:
  assumes "\<forall>retry\<in>set retries. \<exists>chunks e. attempts retry = Fails chunks e"
      and "temp_filename \<noteq> target_filename"
  shows "files (fsys (download_retries attempts temp_filename target_filename retries w))
           target_filename = files (fsys w) target_filename \<and>
         index (download_retries attempts temp_filename target_filename retries w) = index w \<and>
         length (printed (download_retries attempts temp_filename target_filename retries w))
           = length (printed w) + length retries"
  using assms
proof (induction retries arbitrary: w)
  case Nil
  then show ?case by simp
next
  case (Cons retry retries)
  then obtain chunks e where "attempts retry = Fails chunks e" by auto
  with Cons show ?case by (simp add: download_attempt_def)
qed

lemma download_retries_bound:
  "length (printed (download_retries attempts temp_filename target_filename retries w))
     \<le> length (printed w) + length retries"
proof (induction retries arbitrary: w)
  case Nil
  then show ?case by simp
next
  case (Cons retry retries)
  show ?case
  proof (cases "attempts retry")
    case (Completes chunks)
    then show ?thesis by (simp add: download_attempt_def)
  next
    case (Fails chunks e)
    with Cons [of "w\<lparr>fsys := (fsys w)\<lparr>files := (files (fsys w))(temp_filename \<mapsto> concat chunks)\<rparr>,
                    printed := printed w @ [''RETRYING due to '' @ e]\<rparr>"]
    show ?thesis by (simp add: download_attempt_def)
  qed
qed

lemma dadd_all_after_dcreate:
  "\<exists>idx'. dadd_all (dcreate idx name) name pairs = Inr idx' \<and> idx' name \<noteq> None \<and>
          (\<forall>k. k \<noteq> name \<longrightarrow> idx' k = idx k)"
proof -
  have "idx0 name \<noteq> None \<Longrightarrow>
          \<exists>idx'. dadd_all idx0 name pairs = Inr idx' \<and> idx' name \<noteq> None \<and>
                 (\<forall>k. k \<noteq> name \<longrightarrow> idx' k = idx0 k)" for idx0
  proof (induction pairs arbitrary: idx0)
    case Nil
    then show ?case by simp
  next
    case (Cons pair pairs)
    from Cons.prems obtain d where d: "idx0 name = Some d" by auto
    let ?idx1 = "idx0(name \<mapsto> d(fst pair \<mapsto> snd pair))"
    have "?idx1 name \<noteq> None" by simp
    from Cons.IH [of ?idx1, OF this] obtain idx' where
      "dadd_all ?idx1 name pairs = Inr idx'" "idx' name \<noteq> None"
      "\<forall>k. k \<noteq> name \<longrightarrow> idx' k = ?idx1 k" by blast
    with d show ?case by (auto simp: dadd_def)
  qed
  from this [of "dcreate idx name"] show ?thesis by (auto simp: dcreate_def)
qed

lemma download_media_when_all_fail:
  assumes "\<forall>retry<10. \<exists>chunks e. service (media_id m) retry = Fails chunks e"
      and "os_path_join path ''.temp-gphotos'' \<noteq> os_path_join path (filename m)"
  shows "\<exists>w'. download_media \<lparr>index_only = False\<rparr> service m path w
                 = Inr (os_path_join path (filename m), w') \<and>
              files (fsys w') (os_path_join path (filename m))
                 = files (fsys w) (os_path_join path (filename m)) \<and>
              index w' (media_id m) \<noteq> None \<and>
              index w' (os_path_join path (filename m)) \<noteq> None \<and>
              length (printed w') = length (printed w) + 10"
proof -
  let ?target = "os_path_join path (filename m)"
  let ?temp = "os_path_join path ''.temp-gphotos''"
  let ?w1 = "if \<not> isdir (fsys w) path then w\<lparr>fsys := makedirs (fsys w) path\<rparr> else w"
  let ?w2 = "download_retries (service (media_id m)) ?temp ?target [0..<10] ?w1"
  have fails: "\<forall>retry\<in>set [0..<10]. \<exists>chunks e. service (media_id m) retry = Fails chunks e"
    using assms(1) by simp
  from download_retries_all_fail [OF fails assms(2), of ?w1]
  have f: "files (fsys ?w2) ?target = files (fsys w) ?target"
    and p: "length (printed ?w2) = length (printed w) + 10"
    by (simp_all add: makedirs_def)
  from dadd_all_after_dcreate [of "index ?w2" "media_id m"] obtain idx1 where
    a1: "dadd_all (dcreate (index ?w2) (media_id m)) (media_id m)
          [(''filename'', ?target), (''description'', description m), (''checksum'', checksum m)]
        = Inr idx1" and a2: "idx1 (media_id m) \<noteq> None"
    by blast
  from dadd_all_after_dcreate [of idx1 ?target] obtain idx2 where
    b1: "dadd_all (dcreate idx1 ?target) ?target [(''id'', media_id m)] = Inr idx2"
    and b2: "idx2 ?target \<noteq> None" and b3: "\<forall>k. k \<noteq> ?target \<longrightarrow> idx2 k = idx1 k"
    by blast
  have "idx2 (media_id m) \<noteq> None" using a2 b2 b3 by (cases "media_id m = ?target") auto
  moreover have "download_media \<lparr>index_only = False\<rparr> service m path w
                   = Inr (?target, ?w2\<lparr>index := idx2\<rparr>)"
    using a1 b1 by (simp add: download_media_def Let_def)
  ultimately show ?thesis using f p b2 by simp
qed

text \<open>
  C1, on the code. With \<open>index_only\<close> off, when each of the ten transfer attempts
  fails (and no file has the target name beforehand), \<open>download_media\<close> returns the
  target name, no file has that name afterwards, and yet the index holds a forward
  record for the remote id and a reverse record for the target name: the records are
  written although no rename took place.
\<close>

theorem failed_download_is_indexed:
  assumes "\<forall>retry<10. \<exists>chunks e. service (media_id m) retry = Fails chunks e"
      and "os_path_join path ''.temp-gphotos'' \<noteq> os_path_join path (filename m)"
      and "files (fsys w) (os_path_join path (filename m)) = None"
  shows "\<exists>w'. download_media \<lparr>index_only = False\<rparr> service m path w
                 = Inr (os_path_join path (filename m), w') \<and>
              files (fsys w') (os_path_join path (filename m)) = None \<and>
              index w' (media_id m) \<noteq> None \<and>
              index w' (os_path_join path (filename m)) \<noteq> None"
  using download_media_when_all_fail [where service = service and m = m and path = path and w = w,
      OF assms(1,2)] assms(3) by auto

theorem failed_download_is_indexed_witness:
  "(case download_media \<lparr>index_only = False\<rparr> failing_service sample_media ''/photos'' fresh_state of
      Inl e \<Rightarrow> None
    | Inr (target, w) \<Rightarrow>
        Some (target, files (fsys w) target,
              map_option (\<lambda>d. d ''filename'') (index w ''id1''),
              map_option (\<lambda>d. d ''id'') (index w target)))
   = Some (''/photos/img.jpg'', None, Some (Some ''/photos/img.jpg''), Some (Some ''id1''))"
proof -
  have a: "\<forall>retry<10. \<exists>chunks e. failing_service (media_id sample_media) retry = Fails chunks e"
    by (simp add: failing_service_def)
  have n: "os_path_join ''/photos'' (filename sample_media) = ''/photos/img.jpg''"
    by (simp add: os_path_join_def filename_def sample_media_def sample_filename_def)
  have b: "os_path_join ''/photos'' ''.temp-gphotos''
             \<noteq> os_path_join ''/photos'' (filename sample_media)"
    unfolding n by (simp add: os_path_join_def)
  have c: "files (fsys fresh_state) (os_path_join ''/photos'' (filename sample_media)) = None"
    by (simp add: fresh_state_def)
  from failed_download_is_indexed [where service = failing_service and m = sample_media
      and path = "''/photos''" and w = fresh_state, OF a b c] obtain w' where
    r: "download_media \<lparr>index_only = False\<rparr> failing_service sample_media ''/photos'' fresh_state
          = Inr (''/photos/img.jpg'', w')"
    and f: "files (fsys w') ''/photos/img.jpg'' = None"
    unfolding n by blast
  have "download_media \<lparr>index_only = False\<rparr> failing_service sample_media ''/photos'' fresh_state
          = Inr (''/photos/img.jpg'', w') \<Longrightarrow>
        map_option (\<lambda>d. d ''filename'') (index w' ''id1'') = Some (Some ''/photos/img.jpg'') \<and>
        map_option (\<lambda>d. d ''id'') (index w' ''/photos/img.jpg'') = Some (Some ''id1'')"
    by (auto simp add: download_media_def Let_def isdir_def fresh_state_def failing_service_def
        sample_media_def filename_def sample_filename_def os_path_join_def upt_rec
        download_attempt_def dcreate_def dadd_def)
  with r f show ?thesis by simp
qed

text \<open>
  C2, on the code. With \<open>index_only\<close> off, when each of the ten transfer attempts
  fails, \<open>download_media\<close> has made exactly ten attempts (one line is printed for
  each) and then returns the target name as it does after a success: the result is
  a normal return, not an exception.
\<close>

theorem exhausted_retries_return_normally:
  assumes "\<forall>retry<10. \<exists>chunks e. service (media_id m) retry = Fails chunks e"
      and "os_path_join path ''.temp-gphotos'' \<noteq> os_path_join path (filename m)"
  shows "\<exists>w'. download_media \<lparr>index_only = False\<rparr> service m path w
                 = Inr (os_path_join path (filename m), w') \<and>
              length (printed w') = length (printed w) + 10"
  using download_media_when_all_fail [where service = service and m = m and path = path and w = w,
      OF assms] by auto

theorem exhausted_retries_return_normally_witness:
  "(case download_media \<lparr>index_only = False\<rparr> failing_service sample_media ''/photos'' fresh_state of
      Inl e \<Rightarrow> None
    | Inr (target, w) \<Rightarrow>
        Some (target, printed w, files (fsys w) ''/photos/.temp-gphotos''))
   = Some (''/photos/img.jpg'', replicate 10 ''RETRYING due to HttpError 503'', Some ''partial'')"
proof -
  have a: "\<forall>retry<10. \<exists>chunks e. failing_service (media_id sample_media) retry = Fails chunks e"
    by (simp add: failing_service_def)
  have n: "os_path_join ''/photos'' (filename sample_media) = ''/photos/img.jpg''"
    by (simp add: os_path_join_def filename_def sample_media_def sample_filename_def)
  have b: "os_path_join ''/photos'' ''.temp-gphotos''
             \<noteq> os_path_join ''/photos'' (filename sample_media)"
    unfolding n by (simp add: os_path_join_def)
  from exhausted_retries_return_normally [where service = failing_service and m = sample_media
      and path = "''/photos''" and w = fresh_state, OF a b] obtain w' where
    r: "download_media \<lparr>index_only = False\<rparr> failing_service sample_media ''/photos'' fresh_state
          = Inr (''/photos/img.jpg'', w')"
    unfolding n by blast
  have "download_media \<lparr>index_only = False\<rparr> failing_service sample_media ''/photos'' fresh_state
          = Inr (''/photos/img.jpg'', w') \<Longrightarrow>
        printed w' = replicate 10 ''RETRYING due to HttpError 503'' \<and>
        files (fsys w') ''/photos/.temp-gphotos'' = Some ''partial''"
    by (auto simp add: download_media_def Let_def isdir_def fresh_state_def failing_service_def
        sample_media_def filename_def sample_filename_def os_path_join_def upt_rec
        download_attempt_def dcreate_def dadd_def numeral_eq_Suc)
  with r show ?thesis by simp
qed

end
